theory Spec2Isabelle
  imports Complex_Main
begin

section \<open>Python and numpy values\<close>

text \<open>
  The notebook \<^verbatim>\<open>cosmo.ipynb\<close> computes with Python floats, numpy scalars and sympy
  rationals. Floats are embedded as exact reals: rounding, overflow and underflow are
  not part of the model. What the model keeps is every way a cell can go wrong: a
  Python exception is an \<open>Inl\<close> value, and a numpy result that is \<^verbatim>\<open>nan\<close> or
  \<^verbatim>\<open>inf\<close> (numpy warns and carries on) is the value \<open>Invalid\<close>.
\<close>

datatype py_error = ZeroDivisionError | IndexError | KeyError

datatype np_float = Finite real | Invalid

text \<open>\<^verbatim>\<open>np.sqrt(x)\<close>: \<^verbatim>\<open>nan\<close> below zero.\<close>

definition np_sqrt :: "real \<Rightarrow> np_float" where
  "np_sqrt x = (if x < 0 then Invalid else Finite (sqrt x))"

text \<open>\<^verbatim>\<open>a**n\<close> on a Python float with an integer exponent: zero to a negative power raises.\<close>

definition py_pow :: "real \<Rightarrow> int \<Rightarrow> py_error + real" where
  "py_pow a n = (if a = 0 \<and> n < 0 then Inl ZeroDivisionError else Inr (a powi n))"

text \<open>\<^verbatim>\<open>r * x\<close> with a Python float \<open>r\<close> and a numpy scalar \<open>x\<close>.\<close>

definition np_times :: "real \<Rightarrow> np_float \<Rightarrow> np_float" where
  "np_times r x = (case x of Finite v \<Rightarrow> Finite (r * v) | Invalid \<Rightarrow> Invalid)"

text \<open>\<^verbatim>\<open>1 / x\<close> on a numpy scalar: dividing by zero gives \<^verbatim>\<open>inf\<close>, not an exception.\<close>

definition np_recip :: "np_float \<Rightarrow> np_float" where
  "np_recip x =
     (case x of
        Finite v \<Rightarrow> (if v = 0 then Invalid else Finite (1 / v))
      | Invalid \<Rightarrow> Invalid)"

section \<open>Age and diameter of the universe\<close>

text \<open>
  \<^verbatim>\<open>
  H0 = 67.36 # km s^-1 Mpc^-1
  H0_cgs = H0 * 1e3 / (kpc.value * 1e3) # s^-1
  omegam = 0.3153
  def E(a: float) -> float:
      return np.sqrt(omegam*a**-3 + (1-omegam))
  age = 1/H0_cgs*quad(lambda a: 1/(a*E(a)), 0, 1)[0]
  Gyr = 60 * 60 * 24 * 365 * 1e9
  diameter = 2 * c.to("cm/s").value / H0_cgs * quad(lambda a: 1/(a**2*E(a)), 0, 1)[0]
  \<close>
  \<open>E\<close> reads the global \<open>omegam\<close>; here it is an argument, and so are \<open>H0_cgs\<close> and the
  speed of light in cm/s, which the cell takes from \<^verbatim>\<open>astropy.constants\<close>.
\<close>

definition H0 :: real where
  "H0 = 67.36"


definition Gyr :: real where
  "Gyr = 60 * 60 * 24 * 365 * 1000000000"

definition E :: "real \<Rightarrow> real \<Rightarrow> py_error + np_float" where
  "E om a =
     (case py_pow a (- 3) of
        Inl e \<Rightarrow> Inl e
      | Inr p \<Rightarrow> Inr (np_sqrt (om * p + (1 - om))))"

text \<open>The two lambdas handed to \<^verbatim>\<open>quad\<close>.\<close>

definition age_integrand :: "real \<Rightarrow> real \<Rightarrow> py_error + np_float" where
  "age_integrand om a =
     (case E om a of
        Inl e \<Rightarrow> Inl e
      | Inr v \<Rightarrow> Inr (np_recip (np_times a v)))"

definition diameter_integrand :: "real \<Rightarrow> real \<Rightarrow> py_error + np_float" where
  "diameter_integrand om a =
     (case E om a of
        Inl e \<Rightarrow> Inl e
      | Inr v \<Rightarrow> Inr (np_recip (np_times (a ^ 2) v)))"

text \<open>
  \<^verbatim>\<open>scipy.integrate.quad\<close> is library code outside the repository, so it is a parameter:
  any function from an integrand and two limits to either an exception or the pair
  \<^verbatim>\<open>(estimate, abserr)\<close> that \<^verbatim>\<open>quad\<close> returns. The cell keeps element \<^verbatim>\<open>[0]\<close> of the
  pair. The left operand of each product is evaluated first, so a zero \<open>H0_cgs\<close>
  raises before \<^verbatim>\<open>quad\<close> is called.
\<close>

type_synonym integrand = "real \<Rightarrow> py_error + np_float"

type_synonym quad_fn = "integrand \<Rightarrow> real \<Rightarrow> real \<Rightarrow> py_error + (np_float \<times> np_float)"

definition age :: "quad_fn \<Rightarrow> real \<Rightarrow> real \<Rightarrow> py_error + np_float" where
  "age quad H0_cgs om =
     (if H0_cgs = 0 then Inl ZeroDivisionError
      else case quad (age_integrand om) 0 1 of
             Inl e \<Rightarrow> Inl e
           | Inr (y, abserr) \<Rightarrow> Inr (np_times (1 / H0_cgs) y))"

definition diameter :: "quad_fn \<Rightarrow> real \<Rightarrow> real \<Rightarrow> real \<Rightarrow> py_error + np_float" where
  "diameter quad c_cgs H0_cgs om =
     (if H0_cgs = 0 then Inl ZeroDivisionError
      else case quad (diameter_integrand om) 0 1 of
             Inl e \<Rightarrow> Inl e
           | Inr (y, abserr) \<Rightarrow> Inr (np_times (2 * c_cgs / H0_cgs) y))"

text \<open>
  A one-point rule with node \<open>x\<close>, used to run \<open>age\<close> and \<open>diameter\<close> on concrete inputs:
  it samples the integrand at \<open>x\<close> and reports the error estimate \<open>err\<close> it is given.
\<close>

definition one_point_rule :: "real \<Rightarrow> real \<Rightarrow> quad_fn" where
  "one_point_rule x err f a b =
     (case f x of
        Inl e \<Rightarrow> Inl e
      | Inr y \<Rightarrow> Inr (np_times (b - a) y, Finite err))"

text \<open>
  What a quadrature estimates. The integral of an integrand over \<open>[a, b]\<close> is given
  through an antiderivative: \<open>I\<close> is the integral when some \<open>F\<close>, continuous on
  \<open>[a, b]\<close>, has at every interior point \<open>x\<close> the derivative \<open>g x\<close>, the finite value of
  the integrand there, and \<open>I = F b - F a\<close>. This covers an integrand that is unbounded
  at an endpoint, as both lambdas are at 0.
\<close>

definition definite_integral :: "integrand \<Rightarrow> real \<Rightarrow> real \<Rightarrow> real \<Rightarrow> bool" where
  "definite_integral f a b I \<longleftrightarrow>
     (\<exists>F g. continuous_on {a..b} F
        \<and> (\<forall>x. a < x \<and> x < b
              \<longrightarrow> f x = Inr (Finite (g x)) \<and> (F has_real_derivative g x) (at x))
        \<and> I = F b - F a)"

text \<open>
  The cell calls \<^verbatim>\<open>quad\<close> with its default tolerances \<^verbatim>\<open>epsabs = epsrel = 1.49e-8\<close>.
  \<open>quad_converges quad f\<close> says that on \<open>f\<close> over \<open>[0, 1]\<close> the quadrature reaches them:
  it returns a finite estimate within \<open>max epsabs (epsrel * \<bar>I\<bar>)\<close> of the integral \<open>I\<close>.
\<close>

definition quad_eps :: real where
  "quad_eps = 1.49 / 10 ^ 8"

definition quad_converges :: "quad_fn \<Rightarrow> integrand \<Rightarrow> bool" where
  "quad_converges quad f \<longleftrightarrow>
     (\<forall>I. definite_integral f 0 1 I
        \<longrightarrow> (\<exists>y abserr. quad f 0 1 = Inr (Finite y, abserr)
               \<and> \<bar>y - I\<bar> \<le> max quad_eps (quad_eps * \<bar>I\<bar>)))"

text \<open>
  The units the cell prints in:
  \<^verbatim>\<open>
  print(f"Age (Gyr): {age/Gyr}")
  print(f"Diameter (Gpc): {(diameter / 1e2) / (kpc.value * 1e6)}")
  \<close>
  with \<^verbatim>\<open>kpc.value\<close>, astropy's kiloparsec in metres, as an argument.
\<close>

definition age_in_Gyr :: "real \<Rightarrow> real" where
  "age_in_Gyr t = t / Gyr"

definition diameter_in_Gpc :: "real \<Rightarrow> real \<Rightarrow> real" where
  "diameter_in_Gpc kpc_value d = (d / 100) / (kpc_value * 1000000)"

section \<open>Natural units\<close>

text \<open>
  \<^verbatim>\<open>
  L = length; T = time; M = mass
  L_dims = {L: 1, T: 0, M: 0}
  T_dims = {L: 0, T: 1, M: 0}
  c_dims = {L: 1, T: -1, M: 0}
  hbar_dims = {L: 2, T: -1, M: 1}
  G_dims = {L: 3, M: -1, T: -2}
  t_p_dims = solve([i*c_dims[x] + j*hbar_dims[x] + k*G_dims[x] - T_dims[x]
                    for x in (L, T, M)], i, j, k, dict=True)[0]
  l_p_dims = solve([i*c_dims[x] + j*hbar_dims[x] + k*G_dims[x] - L_dims[x]
                    for x in (L, T, M)], i, j, k, dict=True)[0]
  \<close>
  A dimension vector is a dictionary with the three keys \<open>L\<close>, \<open>T\<close>, \<open>M\<close>, here a function
  on \<open>dimension\<close>. The unknowns are the sympy symbols \<open>i\<close>, \<open>j\<close>, \<open>k\<close>.
\<close>

datatype dimension = Length | Time | Mass

datatype symbol = Sym_i | Sym_j | Sym_k

type_synonym dims = "dimension \<Rightarrow> int"

definition L_dims :: dims where
  "L_dims x = (case x of Length \<Rightarrow> 1 | Time \<Rightarrow> 0 | Mass \<Rightarrow> 0)"

definition T_dims :: dims where
  "T_dims x = (case x of Length \<Rightarrow> 0 | Time \<Rightarrow> 1 | Mass \<Rightarrow> 0)"

definition c_dims :: dims where
  "c_dims x = (case x of Length \<Rightarrow> 1 | Time \<Rightarrow> - 1 | Mass \<Rightarrow> 0)"

definition hbar_dims :: dims where
  "hbar_dims x = (case x of Length \<Rightarrow> 2 | Time \<Rightarrow> - 1 | Mass \<Rightarrow> 1)"

definition G_dims :: dims where
  "G_dims x = (case x of Length \<Rightarrow> 3 | Mass \<Rightarrow> - 1 | Time \<Rightarrow> - 2)"

text \<open>
  The sympy expressions that occur are linear in the symbols:
  \<open>Lin a b c d\<close> is \<open>a*i + b*j + c*k + d\<close>, and \<open>Num r\<close> is the rational number \<open>r\<close>.
\<close>

datatype lin_expr = Lin rat rat rat rat

fun lin_eval :: "lin_expr \<Rightarrow> rat \<times> rat \<times> rat \<Rightarrow> rat" where
  "lin_eval (Lin a b c d) (i, j, k) = a * i + b * j + c * k + d"

definition Num :: "rat \<Rightarrow> lin_expr" where
  "Num r = Lin 0 0 0 r"

text \<open>The list comprehension: one expression per dimension, each to be solved for zero.\<close>

definition equation :: "dims \<Rightarrow> dims \<Rightarrow> dims \<Rightarrow> dims \<Rightarrow> dimension \<Rightarrow> lin_expr" where
  "equation dc dh dg dt x =
     Lin (of_int (dc x)) (of_int (dh x)) (of_int (dg x)) (- of_int (dt x))"

definition equations :: "dims \<Rightarrow> dims \<Rightarrow> dims \<Rightarrow> dims \<Rightarrow> lin_expr list" where
  "equations dc dh dg dt = map (equation dc dh dg dt) [Length, Time, Mass]"

text \<open>
  \<^verbatim>\<open>sympy.solve\<close> is library code outside the repository, so the solver is a parameter:
  a function from the list of expressions to the list of solution dictionaries that
  \<^verbatim>\<open>solve(..., dict=True)\<close> returns. \<open>sympy_solve solve eqs\<close> says that \<open>solve\<close> behaves
  on \<open>eqs\<close> as sympy documents it for a linear system: a system with exactly one solution
  gives one dictionary binding every symbol to its number, a system with no solution
  gives the empty list, and otherwise every dictionary returned leaves the free symbols
  out.
\<close>

type_synonym solution = "symbol \<rightharpoonup> lin_expr"

type_synonym solve_fn = "lin_expr list \<Rightarrow> solution list"

definition solutions :: "lin_expr list \<Rightarrow> (rat \<times> rat \<times> rat) set" where
  "solutions eqs = {v. \<forall>e\<in>set eqs. lin_eval e v = 0}"

definition numeric_solution :: "rat \<times> rat \<times> rat \<Rightarrow> solution" where
  "numeric_solution v =
     (case v of (i, j, k) \<Rightarrow> [Sym_i \<mapsto> Num i, Sym_j \<mapsto> Num j, Sym_k \<mapsto> Num k])"

definition sympy_solve :: "solve_fn \<Rightarrow> lin_expr list \<Rightarrow> bool" where
  "sympy_solve solve eqs \<longleftrightarrow>
     (\<forall>v. solutions eqs = {v} \<longrightarrow> solve eqs = [numeric_solution v])
   \<and> (solutions eqs = {} \<longrightarrow> solve eqs = [])
   \<and> ((\<nexists>v. solutions eqs = {v}) \<longrightarrow> (\<forall>d\<in>set (solve eqs). \<exists>s. d s = None))"

text \<open>\<^verbatim>\<open>xs[0]\<close> on a list and \<^verbatim>\<open>d[s]\<close> on a dictionary.\<close>

definition item0 :: "'a list \<Rightarrow> py_error + 'a" where
  "item0 xs = (case xs of [] \<Rightarrow> Inl IndexError | x # _ \<Rightarrow> Inr x)"

definition getitem :: "solution \<Rightarrow> symbol \<Rightarrow> py_error + lin_expr" where
  "getitem d s = (case d s of None \<Rightarrow> Inl KeyError | Some v \<Rightarrow> Inr v)"

definition solve_dims :: "solve_fn \<Rightarrow> dims \<Rightarrow> dims \<Rightarrow> dims \<Rightarrow> dims \<Rightarrow> py_error + solution" where
  "solve_dims solve dc dh dg dt = item0 (solve (equations dc dh dg dt))"

definition t_p_dims :: "solve_fn \<Rightarrow> py_error + solution" where
  "t_p_dims solve = solve_dims solve c_dims hbar_dims G_dims T_dims"

definition l_p_dims :: "solve_fn \<Rightarrow> py_error + solution" where
  "l_p_dims solve = solve_dims solve c_dims hbar_dims G_dims L_dims"

text \<open>
  Every use of a solved dictionary reads the three exponents in the order
  \<^verbatim>\<open>d[i]\<close>, \<^verbatim>\<open>d[j]\<close>, \<^verbatim>\<open>d[k]\<close>:
  \<^verbatim>\<open>
  Eq(t_p_sym, c_sym**t_p_dims[i] * hbar_sym**t_p_dims[j] * G_sym**t_p_dims[k])
  \<close>
\<close>

definition exponents :: "solution \<Rightarrow> py_error + (lin_expr \<times> lin_expr \<times> lin_expr)" where
  "exponents d =
     (case getitem d Sym_i of
        Inl e \<Rightarrow> Inl e
      | Inr x \<Rightarrow>
          (case getitem d Sym_j of
             Inl e \<Rightarrow> Inl e
           | Inr y \<Rightarrow>
               (case getitem d Sym_k of
                  Inl e \<Rightarrow> Inl e
                | Inr z \<Rightarrow> Inr (x, y, z))))"

definition unit_exponents ::
  "solve_fn \<Rightarrow> dims \<Rightarrow> dims \<Rightarrow> dims \<Rightarrow> dims \<Rightarrow> py_error + (lin_expr \<times> lin_expr \<times> lin_expr)" where
  "unit_exponents solve dc dh dg dt =
     (case solve_dims solve dc dh dg dt of
        Inl e \<Rightarrow> Inl e
      | Inr d \<Rightarrow> exponents d)"


subsection \<open>A solver to run the cell with\<close>

text \<open>
  Gauss-Jordan elimination on the expressions, symbol by symbol: a solver that can be
  evaluated, returning the same three kinds of answer.
\<close>

fun coeff :: "lin_expr \<Rightarrow> symbol \<Rightarrow> rat" where
  "coeff (Lin a b c d) Sym_i = a"
| "coeff (Lin a b c d) Sym_j = b"
| "coeff (Lin a b c d) Sym_k = c"

fun const_term :: "lin_expr \<Rightarrow> rat" where
  "const_term (Lin a b c d) = d"

fun scale :: "rat \<Rightarrow> lin_expr \<Rightarrow> lin_expr" where
  "scale r (Lin a b c d) = Lin (r * a) (r * b) (r * c) (r * d)"

fun subtract :: "lin_expr \<Rightarrow> lin_expr \<Rightarrow> lin_expr" where
  "subtract (Lin a b c d) (Lin a' b' c' d') = Lin (a - a') (b - b') (c - c') (d - d')"

fun unit_expr :: "symbol \<Rightarrow> lin_expr" where
  "unit_expr Sym_i = Lin 1 0 0 0"
| "unit_expr Sym_j = Lin 0 1 0 0"
| "unit_expr Sym_k = Lin 0 0 1 0"

fun eliminate ::
  "symbol list \<Rightarrow> (symbol \<times> lin_expr) list \<Rightarrow> lin_expr list
     \<Rightarrow> (symbol \<times> lin_expr) list \<times> lin_expr list" where
  "eliminate [] piv rest = (piv, rest)"
| "eliminate (s # ss) piv rest =
     (case List.find (\<lambda>e. coeff e s \<noteq> 0) rest of
        None \<Rightarrow> eliminate ss piv rest
      | Some p \<Rightarrow>
          (let p' = scale (1 / coeff p s) p;
               red = (\<lambda>e. subtract e (scale (coeff e s) p'))
           in eliminate ss (map (\<lambda>(t, e). (t, red e)) piv @ [(s, p')])
                (map red (remove1 p rest))))"

definition solved_for :: "symbol \<Rightarrow> lin_expr \<Rightarrow> lin_expr" where
  "solved_for s e = scale (- 1) (subtract e (unit_expr s))"

definition gauss_jordan :: solve_fn where
  "gauss_jordan eqs =
     (case eliminate [Sym_i, Sym_j, Sym_k] [] eqs of
        (piv, rest) \<Rightarrow>
          if list_ex (\<lambda>e. const_term e \<noteq> 0) rest then []
          else [map_of (map (\<lambda>(s, e). (s, solved_for s e)) piv)])"

section \<open>Age and diameter in Planck units\<close>

text \<open>
  \<^verbatim>\<open>
  t_p_cgs = c.value**t_p_dims[i] * hbar.value**t_p_dims[j] * G.value**t_p_dims[k]
  l_p_cgs = c.value**l_p_dims[i] * hbar.value**l_p_dims[j] * G.value**l_p_dims[k] * 100
  print(f"Age (t_p): {age / t_p_cgs}")
  print(f"Diameter (l_p): {diameter / l_p_cgs}")
  \<close>
  The SI values \<^verbatim>\<open>c.value\<close>, \<^verbatim>\<open>hbar.value\<close>, \<^verbatim>\<open>G.value\<close> come from astropy and are
  arguments. A float raised to a sympy exponent is a sympy number; the model resolves
  it for a positive base and a numeric exponent, the case of the three constants, and
  writes \<open>None\<close> for every other outcome (a symbolic power, a complex number, a zero
  base).
\<close>

fun as_number :: "lin_expr \<Rightarrow> rat option" where
  "as_number (Lin a b c d) = (if a = 0 \<and> b = 0 \<and> c = 0 then Some d else None)"

definition sympy_pow :: "real \<Rightarrow> lin_expr \<Rightarrow> real option" where
  "sympy_pow b x =
     (case as_number x of
        None \<Rightarrow> None
      | Some r \<Rightarrow> if 0 < b then Some (b powr of_rat r) else None)"

definition sympy_mul :: "real option \<Rightarrow> real option \<Rightarrow> real option" where
  "sympy_mul x y =
     (case x of None \<Rightarrow> None | Some u \<Rightarrow> (case y of None \<Rightarrow> None | Some v \<Rightarrow> Some (u * v)))"

definition sympy_div :: "real \<Rightarrow> real option \<Rightarrow> real option" where
  "sympy_div a y =
     (case y of None \<Rightarrow> None | Some v \<Rightarrow> if v = 0 then None else Some (a / v))"

definition t_p_cgs :: "real \<Rightarrow> real \<Rightarrow> real \<Rightarrow> solution \<Rightarrow> py_error + real option" where
  "t_p_cgs c hbar G d =
     (case exponents d of
        Inl e \<Rightarrow> Inl e
      | Inr (x, y, z) \<Rightarrow>
          Inr (sympy_mul (sympy_mul (sympy_pow c x) (sympy_pow hbar y)) (sympy_pow G z)))"

definition l_p_cgs :: "real \<Rightarrow> real \<Rightarrow> real \<Rightarrow> solution \<Rightarrow> py_error + real option" where
  "l_p_cgs c hbar G d =
     (case exponents d of
        Inl e \<Rightarrow> Inl e
      | Inr (x, y, z) \<Rightarrow>
          Inr (sympy_mul
                 (sympy_mul (sympy_mul (sympy_pow c x) (sympy_pow hbar y)) (sympy_pow G z))
                 (Some 100)))"

text \<open>The two printed quantities, from the outputs \<open>t\<close> and \<open>D\<close> of the first cell.\<close>

definition age_in_t_p :: "solve_fn \<Rightarrow> real \<Rightarrow> real \<Rightarrow> real \<Rightarrow> real \<Rightarrow> py_error + real option" where
  "age_in_t_p solve c hbar G t =
     (case t_p_dims solve of
        Inl e \<Rightarrow> Inl e
      | Inr d \<Rightarrow>
          (case t_p_cgs c hbar G d of
             Inl e \<Rightarrow> Inl e
           | Inr u \<Rightarrow> Inr (sympy_div t u)))"

definition diameter_in_l_p ::
  "solve_fn \<Rightarrow> real \<Rightarrow> real \<Rightarrow> real \<Rightarrow> real \<Rightarrow> py_error + real option" where
  "diameter_in_l_p solve c hbar G D =
     (case l_p_dims solve of
        Inl e \<Rightarrow> Inl e
      | Inr d \<Rightarrow>
          (case l_p_cgs c hbar G d of
             Inl e \<Rightarrow> Inl e
           | Inr u \<Rightarrow> Inr (sympy_div D u)))"

section \<open>Composition of the universe\<close>

text \<open>
  \<^verbatim>\<open>
  omegal = 0.6847
  ombh2 = 0.02237
  h = H0 / 100
  omegab = ombh2 / h**2
  omch2 = 0.1200
  omegac = omch2 / h**2
  sizes = [omegab, omegac, omegal]
  \<close>
\<close>

definition omegal :: real where
  "omegal = 0.6847"

definition ombh2 :: real where
  "ombh2 = 0.02237"

definition h :: real where
  "h = H0 / 100"

definition omegab :: real where
  "omegab = ombh2 / h ^ 2"

definition omch2 :: real where
  "omch2 = 0.1200"

definition omegac :: real where
  "omegac = omch2 / h ^ 2"

definition sizes :: "real list" where
  "sizes = [omegab, omegac, omegal]"

section \<open>The expansion rate is defined on the whole integration domain\<close>





section \<open>The composition fractions\<close>

text \<open>
  Claim C9. The three fractions handed to the pie chart, baryons \<open>ombh2 / h\<^sup>2\<close>, cold dark
  matter \<open>omch2 / h\<^sup>2\<close> and dark energy \<open>omegal\<close> with \<open>h = H0 / 100\<close>, sum to a little less
  than 1: the shortfall is positive and below three percent (it is below two tenths of
  a percent), and the divisor \<open>h\<^sup>2\<close> is not zero.
\<close>

theorem sizes_sum_close_to_one:
  "h ^ 2 \<noteq> 0 \<and> sum_list sizes < 1 \<and> \<bar>sum_list sizes - 1\<bar> < 3 / 100
   \<and> 1 - sum_list sizes < 2 / 1000"
  by (simp add: sizes_def omegab_def omegac_def omegal_def ombh2_def omch2_def h_def H0_def
      power2_eq_square)

section \<open>Age and diameter against the integrals\<close>

lemma sqrt_cube:
  fixes x :: real
  assumes "0 < x"
  shows "sqrt (x ^ 3) = x * sqrt x"
proof -
  have "x ^ 3 = x ^ 2 * x"
    by (simp add: power3_eq_cube power2_eq_square)
  then have "sqrt (x ^ 3) = sqrt (x ^ 2) * sqrt x"
    by (simp only: real_sqrt_mult)
  then show ?thesis
    using assms by simp
qed

lemma age_integrand_matter:
  assumes "0 < x"
  shows "age_integrand 1 x = Inr (Finite (sqrt x))"
proof -
  have p: "x powi (- 3) = 1 / x ^ 3"
    by (simp add: power_int_minus_divide)
  have s: "sqrt (1 / x ^ 3) = 1 / (x * sqrt x)"
    using assms by (simp add: real_sqrt_divide sqrt_cube)
  have spos: "0 < sqrt x"
    using assms by simp
  have e: "E 1 x = Inr (Finite (1 / (x * sqrt x)))"
    using assms p s by (simp add: E_def py_pow_def np_sqrt_def)
  have v: "x * (1 / (x * sqrt x)) = 1 / sqrt x"
    using assms by simp
  have nz: "1 / sqrt x \<noteq> 0"
    using spos by simp
  show ?thesis
    using nz by (simp add: age_integrand_def e np_times_def np_recip_def v del: divide_eq_0_iff)
qed

lemma antiderivative_sqrt:
  fixes x :: real
  assumes "0 < x"
  shows "((\<lambda>a. 2 / 3 * (a * sqrt a)) has_real_derivative sqrt x) (at x)"
proof -
  have spos: "0 < sqrt x"
    using assms by simp
  have "((\<lambda>a. 2 / 3 * (a * sqrt a)) has_real_derivative
           2 / 3 * (1 * sqrt x + x * (inverse (sqrt x) / 2))) (at x)"
    using assms by (auto intro!: derivative_eq_intros)
  moreover have "x * inverse (sqrt x) = sqrt x"
    using assms spos by (metis divide_inverse real_div_sqrt less_imp_le)
  ultimately show ?thesis
    by (simp add: field_simps)
qed

lemma definite_integral_unique:
  assumes "a < b" and "definite_integral f a b I" and "definite_integral f a b J"
  shows "I = J"
proof -
  from assms(2) obtain F g where
    F: "continuous_on {a..b} F"
      "\<forall>x. a < x \<and> x < b \<longrightarrow> f x = Inr (Finite (g x)) \<and> (F has_real_derivative g x) (at x)"
      "I = F b - F a"
    unfolding definite_integral_def by blast
  from assms(3) obtain H k where
    H: "continuous_on {a..b} H"
      "\<forall>x. a < x \<and> x < b \<longrightarrow> f x = Inr (Finite (k x)) \<and> (H has_real_derivative k x) (at x)"
      "J = H b - H a"
    unfolding definite_integral_def by blast
  have cont: "continuous_on {a..b} (\<lambda>x. F x - H x)"
    using F(1) H(1) by (rule continuous_on_diff)
  have der: "((\<lambda>x. F x - H x) has_real_derivative 0) (at x)" if "a < x" and "x < b" for x
  proof -
    have fg: "f x = Inr (Finite (g x))" and dF: "(F has_real_derivative g x) (at x)"
      using F(2) that by simp_all
    have fk: "f x = Inr (Finite (k x))" and dH: "(H has_real_derivative k x) (at x)"
      using H(2) that by simp_all
    have "g x = k x"
      using fg fk by simp
    moreover have "((\<lambda>x. F x - H x) has_real_derivative g x - k x) (at x)"
      using dF dH by (rule DERIV_diff)
    ultimately show ?thesis
      by simp
  qed
  have "F b - H b = F a - H a"
    using assms(1) cont der by (rule DERIV_isconst_end)
  then show ?thesis
    using F(3) H(3) by simp
qed

lemma matter_only_integral: "definite_integral (age_integrand 1) 0 1 (2 / 3)"
proof -
  let ?F = "\<lambda>a::real. 2 / 3 * (a * sqrt a)"
  have c: "continuous_on {0..1} ?F"
    by (intro continuous_intros)
  have d: "\<forall>x. 0 < x \<and> x < 1
        \<longrightarrow> age_integrand 1 x = Inr (Finite (sqrt x)) \<and> (?F has_real_derivative sqrt x) (at x)"
    using age_integrand_matter antiderivative_sqrt by blast
  have v: "(2 / 3 :: real) = ?F 1 - ?F 0"
    by simp
  show ?thesis
    unfolding definite_integral_def using c d v by blast
qed





lemma mean_value_rule_age:
  "one_point_rule (4 / 9) 0 (age_integrand 1) 0 1 = Inr (Finite (2 / 3), Finite 0)"
proof -
  have "sqrt (4 / 9 :: real) = 2 / 3"
    by (rule real_sqrt_unique) (simp_all add: power2_eq_square)
  then have "age_integrand 1 (4 / 9) = Inr (Finite (2 / 3))"
    using age_integrand_matter [of "4 / 9"] by simp
  then show ?thesis
    by (simp add: one_point_rule_def np_times_def)
qed

lemma mean_value_rule_converges: "quad_converges (one_point_rule (4 / 9) 0) (age_integrand 1)"
  unfolding quad_converges_def
proof (intro allI impI)
  fix I
  assume i: "definite_integral (age_integrand 1) 0 1 I"
  have "(0::real) < 1"
    by simp
  then have "I = 2 / 3"
    using i matter_only_integral by (rule definite_integral_unique)
  then have "\<bar>2 / 3 - I\<bar> \<le> max quad_eps (quad_eps * \<bar>I\<bar>)"
    by (simp add: quad_eps_def)
  then show "\<exists>y abserr. one_point_rule (4 / 9) 0 (age_integrand 1) 0 1 = Inr (Finite y, abserr)
      \<and> \<bar>y - I\<bar> \<le> max quad_eps (quad_eps * \<bar>I\<bar>)"
    using mean_value_rule_age by blast
qed










section \<open>The quadrature results are used unchecked\<close>

lemma E_at_one: "E om 1 = Inr (Finite 1)"
  by (simp add: E_def py_pow_def np_sqrt_def)

lemma age_integrand_at_one: "age_integrand om 1 = Inr (Finite 1)"
  by (simp add: age_integrand_def E_at_one np_times_def np_recip_def)

lemma diameter_integrand_at_one: "diameter_integrand om 1 = Inr (Finite 1)"
  by (simp add: diameter_integrand_def E_at_one np_times_def np_recip_def)

lemma age_integrand_at_zero: "age_integrand om 0 = Inl ZeroDivisionError"
  by (simp add: age_integrand_def E_def py_pow_def)

lemma diameter_integrand_at_zero: "diameter_integrand om 0 = Inl ZeroDivisionError"
  by (simp add: diameter_integrand_def E_def py_pow_def)

lemma one_point_rule_age:
  "one_point_rule 1 err (age_integrand om) 0 1 = Inr (Finite 1, Finite err)"
  by (simp add: one_point_rule_def age_integrand_at_one np_times_def)

lemma one_point_rule_diameter:
  "one_point_rule 1 err (diameter_integrand om) 0 1 = Inr (Finite 1, Finite err)"
  by (simp add: one_point_rule_def diameter_integrand_at_one np_times_def)

lemma one_point_rule_age_raises:
  "one_point_rule 0 err (age_integrand om) 0 1 = Inl ZeroDivisionError"
  by (simp add: one_point_rule_def age_integrand_at_zero)

lemma one_point_rule_diameter_raises:
  "one_point_rule 0 err (diameter_integrand om) 0 1 = Inl ZeroDivisionError"
  by (simp add: one_point_rule_def diameter_integrand_at_zero)

theorem no_domain_check_counterexample:
  "(1::real) \<ge> 1
   \<and> age (one_point_rule 1 0) (2183 / 10 ^ 21) 1 = Inr (Finite (10 ^ 21 / 2183))
   \<and> diameter (one_point_rule 1 0) 29979245800 (2183 / 10 ^ 21) 1
       = Inr (Finite (2 * 29979245800 * 10 ^ 21 / 2183))
   \<and> (0::real) \<le> 0
   \<and> age (one_point_rule 1 0) (2183 / 10 ^ 21) 0 = Inr (Finite (10 ^ 21 / 2183))
   \<and> diameter (one_point_rule 1 0) 29979245800 (2183 / 10 ^ 21) 0
       = Inr (Finite (2 * 29979245800 * 10 ^ 21 / 2183))
   \<and> quad_converges (one_point_rule (4 / 9) 0) (age_integrand 1)
   \<and> age (one_point_rule (4 / 9) 0) (2183 / 10 ^ 21) 1
       = Inr (Finite (1 / (2183 / 10 ^ 21) * (2 / 3)))"
proof -
  have "age (one_point_rule (4 / 9) 0) (2183 / 10 ^ 21) 1
          = Inr (Finite (1 / (2183 / 10 ^ 21) * (2 / 3)))"
    by (simp add: age_def mean_value_rule_age np_times_def)
  then show ?thesis
    using mean_value_rule_converges
    by (simp add: age_def diameter_def one_point_rule_age one_point_rule_diameter np_times_def)
qed

text \<open>
  Claim C6, as amended. The cell checks neither the range of \<open>om\<close> nor the convergence
  of the quadrature. For every real \<open>om\<close>, also \<open>om \<le> 0\<close> and \<open>om \<ge> 1\<close>, and a nonzero
  \<open>H0_cgs\<close>: whenever \<^verbatim>\<open>quad\<close> returns a pair, the age is \<open>1 / H0_cgs\<close> times its estimate
  and the diameter \<open>2 * c_cgs / H0_cgs\<close> times its estimate; and the only exceptions are
  those \<^verbatim>\<open>quad\<close> itself raises.
\<close>

theorem friedmann_unchecked:
  assumes "H0_cgs \<noteq> 0"
  shows "(quad (age_integrand om) 0 1 = Inr (y, abserr)
            \<longrightarrow> age quad H0_cgs om = Inr (np_times (1 / H0_cgs) y))
       \<and> (quad (diameter_integrand om) 0 1 = Inr (z, abserr')
            \<longrightarrow> diameter quad c_cgs H0_cgs om = Inr (np_times (2 * c_cgs / H0_cgs) z))
       \<and> (\<forall>e. age quad H0_cgs om = Inl e \<longrightarrow> quad (age_integrand om) 0 1 = Inl e)
       \<and> (\<forall>e. diameter quad c_cgs H0_cgs om = Inl e
            \<longrightarrow> quad (diameter_integrand om) 0 1 = Inl e)"
  using assms by (auto simp add: age_def diameter_def split: sum.splits prod.splits)

theorem friedmann_unchecked_witness:
  "(2183 / 10 ^ 21 :: real) \<noteq> 0
   \<and> one_point_rule 1 0 (age_integrand 1) 0 1 = Inr (Finite 1, Finite 0)
   \<and> age (one_point_rule 1 0) (2183 / 10 ^ 21) 1 = Inr (np_times (1 / (2183 / 10 ^ 21)) (Finite 1))
   \<and> one_point_rule 1 0 (diameter_integrand 1) 0 1 = Inr (Finite 1, Finite 0)
   \<and> diameter (one_point_rule 1 0) 29979245800 (2183 / 10 ^ 21) 1
       = Inr (np_times (2 * 29979245800 / (2183 / 10 ^ 21)) (Finite 1))
   \<and> age (one_point_rule 0 0) (2183 / 10 ^ 21) 1 = Inl ZeroDivisionError
   \<and> one_point_rule 0 0 (age_integrand 1) 0 1 = Inl ZeroDivisionError
   \<and> diameter (one_point_rule 0 0) 29979245800 (2183 / 10 ^ 21) 1 = Inl ZeroDivisionError
   \<and> one_point_rule 0 0 (diameter_integrand 1) 0 1 = Inl ZeroDivisionError"
proof -
  have nz: "(2183 / 10 ^ 21 :: real) \<noteq> 0"
    by simp
  have a: "age (one_point_rule 1 0) (2183 / 10 ^ 21) 1
             = Inr (np_times (1 / (2183 / 10 ^ 21)) (Finite 1))"
    using friedmann_unchecked [OF nz, of "one_point_rule 1 0" 1 "Finite 1" "Finite 0"]
      one_point_rule_age [of 0 1] by blast
  have d: "diameter (one_point_rule 1 0) 29979245800 (2183 / 10 ^ 21) 1
             = Inr (np_times (2 * 29979245800 / (2183 / 10 ^ 21)) (Finite 1))"
    using friedmann_unchecked [OF nz, of "one_point_rule 1 0" 1 _ _ "Finite 1" "Finite 0" 29979245800]
      one_point_rule_diameter [of 0 1] by blast
  have ar: "age (one_point_rule 0 0) (2183 / 10 ^ 21) 1 = Inl ZeroDivisionError"
    by (simp add: age_def one_point_rule_age_raises)
  have dr: "diameter (one_point_rule 0 0) 29979245800 (2183 / 10 ^ 21) 1 = Inl ZeroDivisionError"
    by (simp add: diameter_def one_point_rule_diameter_raises)
  show ?thesis
    using nz a d ar dr one_point_rule_age [of 0 1] one_point_rule_diameter [of 0 1]
      one_point_rule_age_raises [of 0 1] one_point_rule_diameter_raises [of 0 1]
    by blast
qed




section \<open>The Planck exponents\<close>

lemma equations_T:
  "equations c_dims hbar_dims G_dims T_dims
     = [Lin 1 2 3 0, Lin (- 1) (- 1) (- 2) (- 1), Lin 0 1 (- 1) 0]"
  by (simp add: equations_def equation_def c_dims_def hbar_dims_def G_dims_def T_dims_def)

lemma equations_L:
  "equations c_dims hbar_dims G_dims L_dims
     = [Lin 1 2 3 (- 1), Lin (- 1) (- 1) (- 2) 0, Lin 0 1 (- 1) 0]"
  by (simp add: equations_def equation_def c_dims_def hbar_dims_def G_dims_def L_dims_def)

lemma solutions_T: "solutions (equations c_dims hbar_dims G_dims T_dims) = {(- 5 / 2, 1 / 2, 1 / 2)}"
proof -
  have "v \<in> solutions (equations c_dims hbar_dims G_dims T_dims) \<longleftrightarrow> v = (- 5 / 2, 1 / 2, 1 / 2)" for v
  proof (cases v)
    case (fields i j k)
    have "(i + 2 * j + 3 * k = 0 \<and> - i - j - 2 * k - 1 = 0 \<and> j - k = 0)
            \<longleftrightarrow> (i = - 5 / 2 \<and> j = 1 / 2 \<and> k = 1 / 2)"
      by auto
    then show ?thesis
      using fields by (simp add: solutions_def equations_T)
  qed
  then show ?thesis
    by blast
qed

lemma solutions_L: "solutions (equations c_dims hbar_dims G_dims L_dims) = {(- 3 / 2, 1 / 2, 1 / 2)}"
proof -
  have "v \<in> solutions (equations c_dims hbar_dims G_dims L_dims) \<longleftrightarrow> v = (- 3 / 2, 1 / 2, 1 / 2)" for v
  proof (cases v)
    case (fields i j k)
    have "(i + 2 * j + 3 * k - 1 = 0 \<and> - i - j - 2 * k = 0 \<and> j - k = 0)
            \<longleftrightarrow> (i = - 3 / 2 \<and> j = 1 / 2 \<and> k = 1 / 2)"
      by auto
    then show ?thesis
      using fields by (simp add: solutions_def equations_L)
  qed
  then show ?thesis
    by blast
qed

lemma exponents_numeric: "exponents (numeric_solution (i, j, k)) = Inr (Num i, Num j, Num k)"
  by (simp add: exponents_def getitem_def numeric_solution_def)


lemma sympy_solve_unique:
  assumes "sympy_solve solve eqs" and "solutions eqs = {v}"
  shows "solve eqs = [numeric_solution v]"
  using assms by (simp add: sympy_solve_def)

lemma t_p_dims_value:
  assumes "sympy_solve solve (equations c_dims hbar_dims G_dims T_dims)"
  shows "t_p_dims solve = Inr (numeric_solution (- 5 / 2, 1 / 2, 1 / 2))"
  using sympy_solve_unique [OF assms solutions_T]
  by (simp add: t_p_dims_def solve_dims_def item0_def)

lemma l_p_dims_value:
  assumes "sympy_solve solve (equations c_dims hbar_dims G_dims L_dims)"
  shows "l_p_dims solve = Inr (numeric_solution (- 3 / 2, 1 / 2, 1 / 2))"
  using sympy_solve_unique [OF assms solutions_L]
  by (simp add: l_p_dims_def solve_dims_def item0_def)

lemma gauss_jordan_T:
  "gauss_jordan (equations c_dims hbar_dims G_dims T_dims) = [numeric_solution (- 5 / 2, 1 / 2, 1 / 2)]"
  by (simp add: equations_T gauss_jordan_def solved_for_def numeric_solution_def Num_def fun_eq_iff)

lemma gauss_jordan_L:
  "gauss_jordan (equations c_dims hbar_dims G_dims L_dims) = [numeric_solution (- 3 / 2, 1 / 2, 1 / 2)]"
  by (simp add: equations_L gauss_jordan_def solved_for_def numeric_solution_def Num_def fun_eq_iff)

lemma sympy_solve_uniqueI:
  assumes "solutions eqs = {v}" and "solve eqs = [numeric_solution v]"
  shows "sympy_solve solve eqs"
proof -
  have "\<exists>w. solutions eqs = {w}"
    using assms(1) by blast
  then show ?thesis
    using assms by (simp add: sympy_solve_def)
qed

lemma gauss_jordan_meets_T: "sympy_solve gauss_jordan (equations c_dims hbar_dims G_dims T_dims)"
  using solutions_T gauss_jordan_T by (rule sympy_solve_uniqueI)

lemma gauss_jordan_meets_L: "sympy_solve gauss_jordan (equations c_dims hbar_dims G_dims L_dims)"
  using solutions_L gauss_jordan_L by (rule sympy_solve_uniqueI)

text \<open>
  Claim C1. With the dimension vectors \<open>c = (1,-1,0)\<close>, \<open>hbar = (2,-1,1)\<close>, \<open>G = (3,-2,-1)\<close>,
  the system \<open>i*d_c + j*d_hbar + k*d_G = d_target\<close> has exactly one solution for each of
  the two targets, and a solver that behaves as sympy documents returns it: the
  exponents \<open>(-5/2, 1/2, 1/2)\<close> for the time dimension (Planck time) and
  \<open>(-3/2, 1/2, 1/2)\<close> for the length dimension (Planck length).
\<close>

theorem planck_exponents:
  assumes "sympy_solve solve (equations c_dims hbar_dims G_dims T_dims)"
    and "sympy_solve solve (equations c_dims hbar_dims G_dims L_dims)"
  shows "solutions (equations c_dims hbar_dims G_dims T_dims) = {(- 5 / 2, 1 / 2, 1 / 2)}
       \<and> t_p_dims solve = Inr (numeric_solution (- 5 / 2, 1 / 2, 1 / 2))
       \<and> unit_exponents solve c_dims hbar_dims G_dims T_dims = Inr (Num (- 5 / 2), Num (1 / 2), Num (1 / 2))
       \<and> solutions (equations c_dims hbar_dims G_dims L_dims) = {(- 3 / 2, 1 / 2, 1 / 2)}
       \<and> l_p_dims solve = Inr (numeric_solution (- 3 / 2, 1 / 2, 1 / 2))
       \<and> unit_exponents solve c_dims hbar_dims G_dims L_dims = Inr (Num (- 3 / 2), Num (1 / 2), Num (1 / 2))"
proof -
  have t: "t_p_dims solve = Inr (numeric_solution (- 5 / 2, 1 / 2, 1 / 2))"
    using assms(1) by (rule t_p_dims_value)
  have l: "l_p_dims solve = Inr (numeric_solution (- 3 / 2, 1 / 2, 1 / 2))"
    using assms(2) by (rule l_p_dims_value)
  have ut: "unit_exponents solve c_dims hbar_dims G_dims T_dims = Inr (Num (- 5 / 2), Num (1 / 2), Num (1 / 2))"
    using t by (simp add: unit_exponents_def t_p_dims_def exponents_numeric)
  have ul: "unit_exponents solve c_dims hbar_dims G_dims L_dims = Inr (Num (- 3 / 2), Num (1 / 2), Num (1 / 2))"
    using l by (simp add: unit_exponents_def l_p_dims_def exponents_numeric)
  show ?thesis
    using solutions_T solutions_L t l ut ul by simp
qed

theorem planck_exponents_witness:
  "sympy_solve gauss_jordan (equations c_dims hbar_dims G_dims T_dims)
   \<and> sympy_solve gauss_jordan (equations c_dims hbar_dims G_dims L_dims)
   \<and> t_p_dims gauss_jordan = Inr (numeric_solution (- 5 / 2, 1 / 2, 1 / 2))
   \<and> unit_exponents gauss_jordan c_dims hbar_dims G_dims T_dims = Inr (Num (- 5 / 2), Num (1 / 2), Num (1 / 2))
   \<and> l_p_dims gauss_jordan = Inr (numeric_solution (- 3 / 2, 1 / 2, 1 / 2))
   \<and> unit_exponents gauss_jordan c_dims hbar_dims G_dims L_dims = Inr (Num (- 3 / 2), Num (1 / 2), Num (1 / 2))"
  using planck_exponents [OF gauss_jordan_meets_T gauss_jordan_meets_L]
    gauss_jordan_meets_T gauss_jordan_meets_L by simp

section \<open>Degenerate systems\<close>
















section \<open>Age and diameter in Planck units: the round trip\<close>

lemma powr_half_square:
  fixes x :: real
  assumes "0 < x"
  shows "(x powr (1 / 2)) ^ 2 = x"
proof -
  have "x powr (1 / 2) = sqrt x"
    using assms by (simp add: powr_half_sqrt)
  then show ?thesis
    using assms by simp
qed

lemma powr_neg_half_square:
  fixes x :: real
  assumes "0 < x"
  shows "(x powr (- (real n / 2))) ^ 2 = 1 / x ^ n"
proof -
  have "(x powr (- (real n / 2))) ^ 2 = x powr (- (real n / 2)) * x powr (- (real n / 2))"
    by (simp only: power2_eq_square)
  also have "\<dots> = x powr (- (real n / 2) + - (real n / 2))"
    by (simp only: powr_add)
  also have "- (real n / 2) + - (real n / 2) = - real n"
    by simp
  also have "x powr (- real n) = 1 / x powr (real n)"
    by (simp only: powr_minus_divide)
  also have "x powr (real n) = x ^ n"
    using assms by (rule powr_realpow)
  finally show ?thesis .
qed


lemma t_p_square:
  fixes c hbar G :: real
  assumes "0 < c" and "0 < hbar" and "0 < G"
  shows "(c powr (- (5 / 2)) * hbar powr (1 / 2) * G powr (1 / 2)) ^ 2 = hbar * G / c ^ 5"
proof -
  have "(c powr (- (real 5 / 2))) ^ 2 = 1 / c ^ 5"
    using assms(1) by (rule powr_neg_half_square)
  then have a: "(c powr (- (5 / 2))) ^ 2 = 1 / c ^ 5"
    by simp
  have b: "(hbar powr (1 / 2)) ^ 2 = hbar"
    using assms(2) by (rule powr_half_square)
  have d: "(G powr (1 / 2)) ^ 2 = G"
    using assms(3) by (rule powr_half_square)
  have "(c powr (- (5 / 2)) * hbar powr (1 / 2) * G powr (1 / 2)) ^ 2
          = (c powr (- (5 / 2))) ^ 2 * (hbar powr (1 / 2)) ^ 2 * (G powr (1 / 2)) ^ 2"
    by (simp only: power_mult_distrib)
  also have "\<dots> = 1 / c ^ 5 * hbar * G"
    by (simp only: a b d)
  finally show ?thesis
    by simp
qed

lemma l_p_square:
  fixes c hbar G :: real
  assumes "0 < c" and "0 < hbar" and "0 < G"
  shows "(c powr (- (3 / 2)) * hbar powr (1 / 2) * G powr (1 / 2) * 100) ^ 2
           = hbar * G * 10000 / c ^ 3"
proof -
  have "(c powr (- (real 3 / 2))) ^ 2 = 1 / c ^ 3"
    using assms(1) by (rule powr_neg_half_square)
  then have a: "(c powr (- (3 / 2))) ^ 2 = 1 / c ^ 3"
    by simp
  have b: "(hbar powr (1 / 2)) ^ 2 = hbar"
    using assms(2) by (rule powr_half_square)
  have d: "(G powr (1 / 2)) ^ 2 = G"
    using assms(3) by (rule powr_half_square)
  have e: "(100::real) ^ 2 = 10000"
    by simp
  have "(c powr (- (3 / 2)) * hbar powr (1 / 2) * G powr (1 / 2) * 100) ^ 2
          = (c powr (- (3 / 2))) ^ 2 * (hbar powr (1 / 2)) ^ 2 * (G powr (1 / 2)) ^ 2 * 100 ^ 2"
    by (simp only: power_mult_distrib)
  also have "\<dots> = 1 / c ^ 3 * hbar * G * 10000"
    by (simp only: a b d e)
  finally show ?thesis
    by simp
qed

lemma sympy_pow_Num: "0 < b \<Longrightarrow> sympy_pow b (Num r) = Some (b powr of_rat r)"
  by (simp add: sympy_pow_def Num_def)

lemma t_p_cgs_value:
  assumes "0 < c" and "0 < hbar" and "0 < G"
  shows "t_p_cgs c hbar G (numeric_solution (- 5 / 2, 1 / 2, 1 / 2))
           = Inr (Some (c powr (- (5 / 2)) * hbar powr (1 / 2) * G powr (1 / 2)))"
  using assms
  by (simp add: t_p_cgs_def exponents_numeric sympy_pow_Num sympy_mul_def of_rat_divide of_rat_minus)

lemma l_p_cgs_value:
  assumes "0 < c" and "0 < hbar" and "0 < G"
  shows "l_p_cgs c hbar G (numeric_solution (- 3 / 2, 1 / 2, 1 / 2))
           = Inr (Some (c powr (- (3 / 2)) * hbar powr (1 / 2) * G powr (1 / 2) * 100))"
  using assms
  by (simp add: l_p_cgs_def exponents_numeric sympy_pow_Num sympy_mul_def of_rat_divide of_rat_minus)

lemma between_by_squares:
  fixes x lo hi :: real
  assumes "0 < x" and "0 \<le> hi" and "lo ^ 2 \<le> x ^ 2" and "x ^ 2 \<le> hi ^ 2"
  shows "lo \<le> x \<and> x \<le> hi"
proof
  have "0 \<le> x"
    using assms(1) by simp
  with assms(3) show "lo \<le> x"
    by (rule power2_le_imp_le)
  from assms(4) assms(2) show "x \<le> hi"
    by (rule power2_le_imp_le)
qed

lemma ratio_within:
  fixes t u lo hi L U :: real
  assumes "0 < lo" and "lo \<le> u" and "u \<le> hi" and "t \<le> U * lo" and "L * hi \<le> t"
    and "0 \<le> L" and "0 \<le> U"
  shows "L \<le> t / u \<and> t / u \<le> U"
proof
  have upos: "0 < u"
    using assms(1,2) by linarith
  have "L * u \<le> L * hi"
    using assms(3,6) by (rule mult_left_mono)
  then have "L * u \<le> t"
    using assms(5) by linarith
  then show "L \<le> t / u"
    using upos by (simp only: pos_le_divide_eq)
  have "U * lo \<le> U * u"
    using assms(2,7) by (rule mult_left_mono)
  then have "t \<le> U * u"
    using assms(4) by linarith
  then show "t / u \<le> U"
    using upos by (simp only: pos_divide_le_eq)
qed

lemma product_bounds:
  fixes hbar G :: real
  assumes "hlo \<le> hbar" and "hbar \<le> hhi" and "Glo \<le> G" and "G \<le> Ghi"
    and "0 \<le> hlo" and "0 \<le> Glo"
  shows "hlo * Glo \<le> hbar * G \<and> hbar * G \<le> hhi * Ghi"
proof
  show "hlo * Glo \<le> hbar * G"
    using assms(1,3) _ assms(6)
  proof (rule mult_mono)
    show "0 \<le> hbar"
      using assms(1,5) by linarith
  qed
  show "hbar * G \<le> hhi * Ghi"
    using assms(2,4)
  proof (rule mult_mono)
    show "0 \<le> hhi"
      using assms(1,2,5) by linarith
    show "0 \<le> G"
      using assms(3,6) by linarith
  qed
qed

lemma t_p_bracket:
  fixes hbar G :: real
  assumes h: "10545 / 10 ^ 38 \<le> hbar" "hbar \<le> 10546 / 10 ^ 38"
    and g: "667 / 10 ^ 13 \<le> G" "G \<le> 668 / 10 ^ 13"
  shows "5389 / 10 ^ 47 \<le> 299792458 powr (- (5 / 2)) * hbar powr (1 / 2) * G powr (1 / 2)
       \<and> 299792458 powr (- (5 / 2)) * hbar powr (1 / 2) * G powr (1 / 2) \<le> 5394 / 10 ^ 47"
proof -
  let ?u = "299792458 powr (- (5 / 2)) * hbar powr (1 / 2) * G powr (1 / 2)"
  have hpos: "0 < hbar"
    using h(1) by (rule less_le_trans [rotated]) simp
  have gpos: "0 < G"
    using g(1) by (rule less_le_trans [rotated]) simp
  have sq: "?u ^ 2 = hbar * G / 299792458 ^ 5"
    using _ hpos gpos by (rule t_p_square) simp
  have upos: "0 < ?u"
    using hpos gpos by simp
  have pb: "(10545 / 10 ^ 38) * (667 / 10 ^ 13) \<le> hbar * G
      \<and> hbar * G \<le> (10546 / 10 ^ 38) * (668 / 10 ^ 13)"
    using h g by (rule product_bounds) simp_all
  have n1: "(5389 / 10 ^ 47 :: real) ^ 2 * 299792458 ^ 5 \<le> (10545 / 10 ^ 38) * (667 / 10 ^ 13)"
    by (simp add: power_divide)
  have n2: "(10546 / 10 ^ 38) * (668 / 10 ^ 13) \<le> (5394 / 10 ^ 47 :: real) ^ 2 * 299792458 ^ 5"
    by (simp add: power_divide)
  have cpos: "0 < (299792458::real) ^ 5"
    by simp
  have "(5389 / 10 ^ 47 :: real) ^ 2 * 299792458 ^ 5 \<le> hbar * G"
    using n1 pb by linarith
  then have lo: "(5389 / 10 ^ 47 :: real) ^ 2 \<le> ?u ^ 2"
    by (simp only: sq pos_le_divide_eq [OF cpos])
  have "hbar * G \<le> (5394 / 10 ^ 47 :: real) ^ 2 * 299792458 ^ 5"
    using n2 pb by linarith
  then have hi: "?u ^ 2 \<le> (5394 / 10 ^ 47 :: real) ^ 2"
    by (simp only: sq pos_divide_le_eq [OF cpos])
  show ?thesis
    using upos _ lo hi by (rule between_by_squares) simp
qed

lemma l_p_bracket:
  fixes hbar G :: real
  assumes h: "10545 / 10 ^ 38 \<le> hbar" "hbar \<le> 10546 / 10 ^ 38"
    and g: "667 / 10 ^ 13 \<le> G" "G \<le> 668 / 10 ^ 13"
  shows "16156 / 10 ^ 37 \<le> 299792458 powr (- (3 / 2)) * hbar powr (1 / 2) * G powr (1 / 2) * 100
       \<and> 299792458 powr (- (3 / 2)) * hbar powr (1 / 2) * G powr (1 / 2) * 100 \<le> 16170 / 10 ^ 37"
proof -
  let ?u = "299792458 powr (- (3 / 2)) * hbar powr (1 / 2) * G powr (1 / 2) * 100"
  have hpos: "0 < hbar"
    using h(1) by (rule less_le_trans [rotated]) simp
  have gpos: "0 < G"
    using g(1) by (rule less_le_trans [rotated]) simp
  have sq: "?u ^ 2 = hbar * G * 10000 / 299792458 ^ 3"
    using _ hpos gpos by (rule l_p_square) simp
  have upos: "0 < ?u"
    using hpos gpos by simp
  have pb: "(10545 / 10 ^ 38) * (667 / 10 ^ 13) \<le> hbar * G
      \<and> hbar * G \<le> (10546 / 10 ^ 38) * (668 / 10 ^ 13)"
    using h g by (rule product_bounds) simp_all
  have n1: "(16156 / 10 ^ 37 :: real) ^ 2 * 299792458 ^ 3
              \<le> (10545 / 10 ^ 38) * (667 / 10 ^ 13) * 10000"
    by (simp add: power_divide)
  have n2: "(10546 / 10 ^ 38) * (668 / 10 ^ 13) * 10000
              \<le> (16170 / 10 ^ 37 :: real) ^ 2 * 299792458 ^ 3"
    by (simp add: power_divide)
  have cpos: "0 < (299792458::real) ^ 3"
    by simp
  have "(16156 / 10 ^ 37 :: real) ^ 2 * 299792458 ^ 3 \<le> hbar * G * 10000"
    using n1 pb by linarith
  then have lo: "(16156 / 10 ^ 37 :: real) ^ 2 \<le> ?u ^ 2"
    by (simp only: sq pos_le_divide_eq [OF cpos])
  have "hbar * G * 10000 \<le> (16170 / 10 ^ 37 :: real) ^ 2 * 299792458 ^ 3"
    using n2 pb by linarith
  then have hi: "?u ^ 2 \<le> (16170 / 10 ^ 37 :: real) ^ 2"
    by (simp only: sq pos_divide_le_eq [OF cpos])
  show ?thesis
    using upos _ lo hi by (rule between_by_squares) simp
qed

lemma age_seconds_bounds:
  assumes "1380 / 100 \<le> age_in_Gyr t" and "age_in_Gyr t \<le> 1382 / 100"
  shows "435196800 * 10 ^ 9 \<le> t \<and> t \<le> 435827520 * 10 ^ 9"
  using assms by (simp add: age_in_Gyr_def Gyr_def field_simps)

lemma diameter_cm_bounds:
  fixes kpc D :: real
  assumes k: "30856 * 10 ^ 15 \<le> kpc" "kpc \<le> 30857 * 10 ^ 15"
    and d: "2882 / 100 \<le> diameter_in_Gpc kpc D" "diameter_in_Gpc kpc D \<le> 2884 / 100"
  shows "2882 * 30856 * 10 ^ 21 \<le> D \<and> D \<le> 2884 * 30857 * 10 ^ 21"
proof -
  have kpos: "0 < kpc"
    using k(1) by (rule less_le_trans [rotated]) simp
  have lo: "2882 * kpc * 10 ^ 6 \<le> D" and hi: "D \<le> 2884 * kpc * 10 ^ 6"
    using d kpos by (simp_all add: diameter_in_Gpc_def field_simps)
  have "2882 * 30856 * 10 ^ 21 \<le> 2882 * kpc * 10 ^ 6"
    using k(1) by simp
  moreover have "2884 * kpc * 10 ^ 6 \<le> 2884 * 30857 * 10 ^ 21"
    using k(2) by simp
  ultimately show ?thesis
    using lo hi by linarith
qed

lemma within_one_percent:
  fixes x m :: real
  assumes "m * 99 / 100 \<le> x \<and> x \<le> m * 101 / 100"
  shows "\<bar>x - m\<bar> \<le> m / 100"
proof -
  have "m * 99 \<le> x * 100" and "x * 100 \<le> m * 101"
    using assms by simp_all
  then have "x - m \<le> m / 100" and "- (x - m) \<le> m / 100"
    by simp_all
  then show ?thesis
    by (rule abs_leI)
qed

text \<open>
  Claim C5. Take the age \<open>t\<close> in seconds and the diameter \<open>D\<close> in centimetres that the
  first cell prints as 13.81 Gyr and 28.83 Gpc, each to within 0.01, the SI values of
  \<open>c\<close> (exact), \<open>hbar\<close> and \<open>G\<close> (to four and three figures) and astropy's kiloparsec.
  Dividing \<open>t\<close> by the Planck time and \<open>D\<close> by the Planck length, both built from the
  solved exponent triples, gives \<open>8.03e60\<close> and \<open>5.47e61\<close> to within one percent.
\<close>

theorem planck_round_trip:
  assumes "sympy_solve solve (equations c_dims hbar_dims G_dims T_dims)"
    and "sympy_solve solve (equations c_dims hbar_dims G_dims L_dims)"
    and c: "c = 299792458"
    and h: "10545 / 10 ^ 38 \<le> hbar" "hbar \<le> 10546 / 10 ^ 38"
    and g: "667 / 10 ^ 13 \<le> G" "G \<le> 668 / 10 ^ 13"
    and t: "1380 / 100 \<le> age_in_Gyr t" "age_in_Gyr t \<le> 1382 / 100"
    and k: "30856 * 10 ^ 15 \<le> kpc" "kpc \<le> 30857 * 10 ^ 15"
    and d: "2882 / 100 \<le> diameter_in_Gpc kpc D" "diameter_in_Gpc kpc D \<le> 2884 / 100"
  shows "\<exists>u w. age_in_t_p solve c hbar G t = Inr (Some u)
           \<and> \<bar>u - 803 * 10 ^ 58\<bar> \<le> 803 * 10 ^ 58 / 100
           \<and> diameter_in_l_p solve c hbar G D = Inr (Some w)
           \<and> \<bar>w - 547 * 10 ^ 59\<bar> \<le> 547 * 10 ^ 59 / 100"
proof -
  let ?tp = "299792458 powr (- (5 / 2)) * hbar powr (1 / 2) * G powr (1 / 2)"
  let ?lp = "299792458 powr (- (3 / 2)) * hbar powr (1 / 2) * G powr (1 / 2) * 100"
  have hpos: "0 < hbar"
    using h(1) by (rule less_le_trans [rotated]) simp
  have gpos: "0 < G"
    using g(1) by (rule less_le_trans [rotated]) simp
  have cpos: "0 < c"
    using c by simp
  have tb: "5389 / 10 ^ 47 \<le> ?tp \<and> ?tp \<le> 5394 / 10 ^ 47"
    using h g by (rule t_p_bracket)
  have lb: "16156 / 10 ^ 37 \<le> ?lp \<and> ?lp \<le> 16170 / 10 ^ 37"
    using h g by (rule l_p_bracket)
  have tnz: "?tp \<noteq> 0"
    using tb by auto
  have lnz: "?lp \<noteq> 0"
    using lb by auto
  have a: "age_in_t_p solve c hbar G t = Inr (Some (t / ?tp))"
    using t_p_dims_value [OF assms(1)] t_p_cgs_value [OF cpos hpos gpos] tnz
    by (simp add: age_in_t_p_def sympy_div_def c)
  have b: "diameter_in_l_p solve c hbar G D = Inr (Some (D / ?lp))"
    using l_p_dims_value [OF assms(2)] l_p_cgs_value [OF cpos hpos gpos] lnz
    by (simp add: diameter_in_l_p_def sympy_div_def c)
  have ts: "435196800 * 10 ^ 9 \<le> t \<and> t \<le> 435827520 * 10 ^ 9"
    using t by (rule age_seconds_bounds)
  have ds: "2882 * 30856 * 10 ^ 21 \<le> D \<and> D \<le> 2884 * 30857 * 10 ^ 21"
    using k d by (rule diameter_cm_bounds)
  have "803 * 10 ^ 58 * 99 / 100 \<le> t / ?tp \<and> t / ?tp \<le> 803 * 10 ^ 58 * 101 / 100"
  proof (rule ratio_within [where lo = "5389 / 10 ^ 47" and hi = "5394 / 10 ^ 47"])
    show "(0::real) < 5389 / 10 ^ 47"
      by simp
    show "5389 / 10 ^ 47 \<le> ?tp" and "?tp \<le> 5394 / 10 ^ 47"
      using tb by simp_all
    have "(435827520 * 10 ^ 9 :: real) \<le> 803 * 10 ^ 58 * 101 / 100 * (5389 / 10 ^ 47)"
      by simp
    then show "t \<le> 803 * 10 ^ 58 * 101 / 100 * (5389 / 10 ^ 47)"
      using ts by linarith
    have "(803 * 10 ^ 58 * 99 / 100 * (5394 / 10 ^ 47) :: real) \<le> 435196800 * 10 ^ 9"
      by simp
    then show "803 * 10 ^ 58 * 99 / 100 * (5394 / 10 ^ 47) \<le> t"
      using ts by linarith
    show "(0::real) \<le> 803 * 10 ^ 58 * 99 / 100" and "(0::real) \<le> 803 * 10 ^ 58 * 101 / 100"
      by simp_all
  qed
  then have ua: "\<bar>t / ?tp - 803 * 10 ^ 58\<bar> \<le> 803 * 10 ^ 58 / 100"
    by (rule within_one_percent)
  have "547 * 10 ^ 59 * 99 / 100 \<le> D / ?lp \<and> D / ?lp \<le> 547 * 10 ^ 59 * 101 / 100"
  proof (rule ratio_within [where lo = "16156 / 10 ^ 37" and hi = "16170 / 10 ^ 37"])
    show "(0::real) < 16156 / 10 ^ 37"
      by simp
    show "16156 / 10 ^ 37 \<le> ?lp" and "?lp \<le> 16170 / 10 ^ 37"
      using lb by simp_all
    have "(2884 * 30857 * 10 ^ 21 :: real) \<le> 547 * 10 ^ 59 * 101 / 100 * (16156 / 10 ^ 37)"
      by simp
    then show "D \<le> 547 * 10 ^ 59 * 101 / 100 * (16156 / 10 ^ 37)"
      using ds by linarith
    have "(547 * 10 ^ 59 * 99 / 100 * (16170 / 10 ^ 37) :: real) \<le> 2882 * 30856 * 10 ^ 21"
      by simp
    then show "547 * 10 ^ 59 * 99 / 100 * (16170 / 10 ^ 37) \<le> D"
      using ds by linarith
    show "(0::real) \<le> 547 * 10 ^ 59 * 99 / 100" and "(0::real) \<le> 547 * 10 ^ 59 * 101 / 100"
      by simp_all
  qed
  then have ub: "\<bar>D / ?lp - 547 * 10 ^ 59\<bar> \<le> 547 * 10 ^ 59 / 100"
    by (rule within_one_percent)
  show ?thesis
    using a ua b ub by blast
qed

theorem planck_round_trip_witness:
  "sympy_solve gauss_jordan (equations c_dims hbar_dims G_dims T_dims)
   \<and> sympy_solve gauss_jordan (equations c_dims hbar_dims G_dims L_dims)
   \<and> (10545 / 10 ^ 38 :: real) \<le> 10545718176461565 / 10 ^ 50
   \<and> (10545718176461565 / 10 ^ 50 :: real) \<le> 10546 / 10 ^ 38
   \<and> (667 / 10 ^ 13 :: real) \<le> 66743 / 10 ^ 15
   \<and> (66743 / 10 ^ 15 :: real) \<le> 668 / 10 ^ 13
   \<and> 1380 / 100 \<le> age_in_Gyr (435517749638049 * 10 ^ 3)
   \<and> age_in_Gyr (435517749638049 * 10 ^ 3) \<le> 1382 / 100
   \<and> (30856 * 10 ^ 15 :: real) \<le> 30856775814913673 * 10 ^ 3
   \<and> (30856775814913673 * 10 ^ 3 :: real) \<le> 30857 * 10 ^ 15
   \<and> 2882 / 100 \<le> diameter_in_Gpc (30856775814913673 * 10 ^ 3) (8896116422606665 * 10 ^ 13)
   \<and> diameter_in_Gpc (30856775814913673 * 10 ^ 3) (8896116422606665 * 10 ^ 13) \<le> 2884 / 100
   \<and> (\<exists>u w. age_in_t_p gauss_jordan 299792458 (10545718176461565 / 10 ^ 50) (66743 / 10 ^ 15)
                 (435517749638049 * 10 ^ 3) = Inr (Some u)
             \<and> \<bar>u - 803 * 10 ^ 58\<bar> \<le> 803 * 10 ^ 58 / 100
             \<and> diameter_in_l_p gauss_jordan 299792458 (10545718176461565 / 10 ^ 50)
                 (66743 / 10 ^ 15) (8896116422606665 * 10 ^ 13) = Inr (Some w)
             \<and> \<bar>w - 547 * 10 ^ 59\<bar> \<le> 547 * 10 ^ 59 / 100)"
proof -
  have h: "(10545 / 10 ^ 38 :: real) \<le> 10545718176461565 / 10 ^ 50"
    "(10545718176461565 / 10 ^ 50 :: real) \<le> 10546 / 10 ^ 38"
    by simp_all
  have g: "(667 / 10 ^ 13 :: real) \<le> 66743 / 10 ^ 15" "(66743 / 10 ^ 15 :: real) \<le> 668 / 10 ^ 13"
    by simp_all
  have t: "1380 / 100 \<le> age_in_Gyr (435517749638049 * 10 ^ 3)"
    "age_in_Gyr (435517749638049 * 10 ^ 3) \<le> 1382 / 100"
    by (simp_all add: age_in_Gyr_def Gyr_def)
  have k: "(30856 * 10 ^ 15 :: real) \<le> 30856775814913673 * 10 ^ 3"
    "(30856775814913673 * 10 ^ 3 :: real) \<le> 30857 * 10 ^ 15"
    by simp_all
  have d: "2882 / 100 \<le> diameter_in_Gpc (30856775814913673 * 10 ^ 3) (8896116422606665 * 10 ^ 13)"
    "diameter_in_Gpc (30856775814913673 * 10 ^ 3) (8896116422606665 * 10 ^ 13) \<le> 2884 / 100"
    by (simp_all add: diameter_in_Gpc_def)
  have c: "(299792458::real) = 299792458"
    by simp
  note r = planck_round_trip [OF gauss_jordan_meets_T gauss_jordan_meets_L c h g t k d]
  show ?thesis
    using gauss_jordan_meets_T gauss_jordan_meets_L h g t k d r by blast
qed

end
